theory Spec2Isabelle
  imports Main "HOL-Library.Word"
begin

section \<open>The SLIP link layer of slip.py\<close>

text \<open>
  A Python \<open>bytes\<close> object is a list of 8-bit words. The exceptions the code can raise
  are values of \<open>py_error\<close>.
\<close>

type_synonym byte = "8 word"
type_synonym bytes = "byte list"

datatype py_error = KeyError | IndexError | ValueError

subsection \<open>Protocol constants (slip.py, lines 4-7)\<close>

definition END :: bytes where
  "END = [0xC0]"

definition ESC :: bytes where
  "ESC = [0xDB]"

definition ESC_END :: bytes where
  "ESC_END = [0xDC]"

definition ESC_ESC :: bytes where
  "ESC_ESC = [0xDD]"

subsection \<open>The two methods of \<open>bytes\<close> that the code calls\<close>

text \<open>
  \<open>s.replace(old, new)\<close>: every non-overlapping occurrence of \<open>old\<close>, found scanning
  from the left, is replaced by \<open>new\<close>. With an empty \<open>old\<close>, Python puts \<open>new\<close> before
  every byte and at the end.
\<close>

function bytes_replace :: "bytes \<Rightarrow> bytes \<Rightarrow> bytes \<Rightarrow> bytes" where
  "bytes_replace s old new =
     (if old = [] then new @ concat (map (\<lambda>c. c # new) s)
      else if s = [] then []
      else if take (length old) s = old
        then new @ bytes_replace (drop (length old) s) old new
      else hd s # bytes_replace (tl s) old new)"
  by pat_completeness auto
termination
  by (relation "measure (\<lambda>(s, old, new). length s)") auto

declare bytes_replace.simps [simp del]

text \<open>
  \<open>s.split(sep)\<close>: the segments between the non-overlapping occurrences of \<open>sep\<close>, found
  scanning from the left; \<open>cur\<close> is the segment being collected. An empty separator raises
  ValueError.
\<close>

function split_aux :: "bytes \<Rightarrow> bytes \<Rightarrow> bytes \<Rightarrow> bytes list" where
  "split_aux s sep cur =
     (if s = [] then [cur]
      else if sep \<noteq> [] \<and> take (length sep) s = sep
        then cur # split_aux (drop (length sep) s) sep []
      else split_aux (tl s) sep (cur @ [hd s]))"
  by pat_completeness auto
termination
  by (relation "measure (\<lambda>(s, sep, cur). length s)") auto

declare split_aux.simps [simp del]

definition bytes_split :: "bytes \<Rightarrow> bytes \<Rightarrow> py_error + bytes list" where
  "bytes_split s sep = (if sep = [] then Inl ValueError else Inr (split_aux s sep []))"

subsection \<open>The transport and the handler\<close>

text \<open>
  Modelled from the spec: the transport class PTY (camadafisica.py) is not part of the
  source. The spec gives it two operations, \<open>register_receiver\<close>, which stores one
  callback, and \<open>send\<close>, which transmits a byte sequence. The model keeps what was
  handed to \<open>send\<close>, in order, and whether a receiver has been registered.
\<close>

record PTY =
  enviados :: "bytes list"
  recebedor_registrado :: bool

definition PTY_registrar_recebedor :: "PTY \<Rightarrow> PTY" where
  "PTY_registrar_recebedor linha = linha\<lparr>recebedor_registrado := True\<rparr>"

definition PTY_enviar :: "PTY \<Rightarrow> bytes \<Rightarrow> PTY" where
  "PTY_enviar linha dados = linha\<lparr>enviados := enviados linha @ [dados]\<rparr>"

text \<open>
  A registered callback is called with a datagram and acts on the state \<open>'u\<close> of the layer
  above; it returns or it raises, and what it did to that state before raising stays. A
  callback that calls back into the Enlace it is registered on while \<open>__raw_recv\<close> runs is
  outside this model.
\<close>

datatype outcome = Returned | Raised

type_synonym 'u callback = "bytes \<Rightarrow> 'u \<Rightarrow> outcome \<times> 'u"

subsection \<open>class Enlace (slip.py, lines 51-118)\<close>

record 'u Enlace =
  linha_serial :: PTY
  callback :: "'u callback option"
  buffer :: bytes

definition Enlace_init :: "PTY \<Rightarrow> 'u Enlace" where
  "Enlace_init linha =
     \<lparr>linha_serial = PTY_registrar_recebedor linha, callback = None, buffer = []\<rparr>"

definition Enlace_registrar_recebedor :: "'u Enlace \<Rightarrow> 'u callback option \<Rightarrow> 'u Enlace" where
  "Enlace_registrar_recebedor self cb = self\<lparr>callback := cb\<rparr>"

definition Enlace_enviar :: "'u Enlace \<Rightarrow> bytes \<Rightarrow> 'u Enlace" where
  "Enlace_enviar self datagrama =
     (let datagrama_escapado = bytes_replace datagrama ESC (ESC @ ESC_ESC);
          datagrama_escapado = bytes_replace datagrama_escapado END (ESC @ ESC_END);
          quadro = END @ datagrama_escapado @ END
      in self\<lparr>linha_serial := PTY_enviar (linha_serial self) quadro\<rparr>)"

text \<open>
  The \<open>for\<close> loop of \<open>__raw_recv\<close> (lines 102-118). It returns the calls it made to the
  callback, in order, each with its datagram and its outcome, and the state of the layer
  above. On \<open>Raised\<close> the code prints a message and the traceback and goes on with the
  next frame.
\<close>

fun entregar :: "'u callback \<Rightarrow> bytes list \<Rightarrow> 'u \<Rightarrow> (bytes \<times> outcome) list \<times> 'u" where
  "entregar cb [] u = ([], u)"
| "entregar cb (quadro_bruto # resto) u =
     (if quadro_bruto = [] then entregar cb resto u
      else
        (let datagrama = bytes_replace quadro_bruto (ESC @ ESC_END) END;
             datagrama = bytes_replace datagrama (ESC @ ESC_ESC) ESC;
             (r, u') = cb datagrama u;
             (chamadas, u'') = entregar cb resto u'
         in ((datagrama, r) # chamadas, u'')))"

text \<open>
  \<open>__raw_recv\<close> (lines 78-118): the result of the call (an exception that leaves it, or
  none), the Enlace after it, the calls made to the callback and the state of the layer
  above.
\<close>

definition Enlace_raw_recv ::
  "'u Enlace \<Rightarrow> bytes \<Rightarrow> 'u \<Rightarrow> (py_error + unit) \<times> 'u Enlace \<times> (bytes \<times> outcome) list \<times> 'u" where
  "Enlace_raw_recv self dados u =
     (case callback self of
        None \<Rightarrow> (Inr (), self, [], u)
      | Some cb \<Rightarrow>
          (let self1 = self\<lparr>buffer := buffer self @ dados\<rparr> in
           case bytes_split (buffer self1) END of
             Inl err \<Rightarrow> (Inl err, self1, [], u)
           | Inr quadros \<Rightarrow>
               (case quadros of
                  [] \<Rightarrow> (Inl IndexError, self1, [], u)
                | _ # _ \<Rightarrow>
                    (let self2 = self1\<lparr>buffer := last quadros\<rparr>;
                         quadros_completos = butlast quadros;
                         (chamadas, u') = entregar cb quadros_completos u
                     in (Inr (), self2, chamadas, u')))))"

subsection \<open>class CamadaEnlace (slip.py, lines 10-48)\<close>

text \<open>
  The attribute \<open>callback\<close> of CamadaEnlace is the field \<open>callback_camada\<close> here (a record
  field name is global, and \<open>callback\<close> is the field of Enlace). Every Enlace of a
  CamadaEnlace has the bound method \<open>_callback\<close> as its callback, which reads the
  attribute when it is called: it acts on that attribute together with the state of the
  layer above.
\<close>

definition ignore_checksum :: bool where
  "ignore_checksum = False"

record 'a CamadaEnlace =
  enlaces :: "string \<rightharpoonup> ('a callback option \<times> 'a) Enlace"
  callback_camada :: "'a callback option"

definition CamadaEnlace__callback :: "('a callback option \<times> 'a) callback" where
  "CamadaEnlace__callback datagrama =
     (\<lambda>(cb, a). case cb of
        None \<Rightarrow> (Returned, (cb, a))
      | Some f \<Rightarrow> (let (r, a') = f datagrama a in (r, (cb, a'))))"

definition CamadaEnlace_init :: "(string \<rightharpoonup> PTY) \<Rightarrow> 'a CamadaEnlace" where
  "CamadaEnlace_init linhas_seriais =
     \<lparr>enlaces = (\<lambda>ip_outra_ponta.
        map_option
          (\<lambda>linha_serial.
             Enlace_registrar_recebedor (Enlace_init linha_serial) (Some CamadaEnlace__callback))
          (linhas_seriais ip_outra_ponta)),
      callback_camada = None\<rparr>"

definition CamadaEnlace_registrar_recebedor ::
  "'a CamadaEnlace \<Rightarrow> 'a callback option \<Rightarrow> 'a CamadaEnlace" where
  "CamadaEnlace_registrar_recebedor self cb = self\<lparr>callback_camada := cb\<rparr>"

text \<open>
  \<open>enviar\<close> (lines 37-44): the result of the call and the CamadaEnlace after it. The
  subscript \<open>self.enlaces[next_hop]\<close> raises KeyError before anything else is done.
\<close>

definition CamadaEnlace_enviar ::
  "'a CamadaEnlace \<Rightarrow> bytes \<Rightarrow> string \<Rightarrow> (py_error + unit) \<times> 'a CamadaEnlace" where
  "CamadaEnlace_enviar self datagrama next_hop =
     (case enlaces self next_hop of
        None \<Rightarrow> (Inl KeyError, self)
      | Some enlace \<Rightarrow>
          (Inr (), self\<lparr>enlaces := (enlaces self)(next_hop \<mapsto> Enlace_enviar enlace datagrama)\<rparr>))"

subsection \<open>Sequences of calls on one Enlace\<close>

text \<open>
  What the transport and the layer above do with an Enlace, one call after the other:
  register a callback (or None), deliver a chunk to \<open>__raw_recv\<close>, send a datagram. The
  calls made to the callback are collected in order. An exception that leaves
  \<open>__raw_recv\<close> ends the run.
\<close>

datatype 'u acao = Registrar "'u callback option" | Receber bytes | Enviar bytes

fun executar ::
  "'u Enlace \<Rightarrow> 'u acao list \<Rightarrow> 'u \<Rightarrow> (py_error + unit) \<times> 'u Enlace \<times> (bytes \<times> outcome) list \<times> 'u" where
  "executar self [] u = (Inr (), self, [], u)"
| "executar self (Registrar cb # resto) u = executar (Enlace_registrar_recebedor self cb) resto u"
| "executar self (Enviar datagrama # resto) u = executar (Enlace_enviar self datagrama) resto u"
| "executar self (Receber dados # resto) u =
     (case Enlace_raw_recv self dados u of
        (Inl err, self', chamadas, u') \<Rightarrow> (Inl err, self', chamadas, u')
      | (Inr _, self', chamadas, u') \<Rightarrow>
          (case executar self' resto u' of
             (r, self'', chamadas', u'') \<Rightarrow> (r, self'', chamadas @ chamadas', u'')))"

text \<open>
  The bytes that \<open>__raw_recv\<close> did not discard in a sequence of calls: the chunks that
  arrived while a callback was registered, \<open>cb\<close> being the callback at the start.
\<close>

fun processado :: "'u callback option \<Rightarrow> 'u acao list \<Rightarrow> bytes" where
  "processado cb [] = []"
| "processado cb (Registrar cb' # resto) = processado cb' resto"
| "processado cb (Enviar datagrama # resto) = processado cb resto"
| "processado cb (Receber dados # resto) =
     (case cb of None \<Rightarrow> processado cb resto | Some _ \<Rightarrow> dados @ processado cb resto)"

subsection \<open>Names for the two substitutions, and concrete collaborators\<close>

text \<open>A line on which nothing has happened.\<close>

definition linha_nova :: PTY where
  "linha_nova = \<lparr>enviados = [], recebedor_registrado = False\<rparr>"

text \<open>The byte stuffing of \<open>Enlace.enviar\<close> (lines 70-71) as a function of the datagram.\<close>

definition escapar :: "bytes \<Rightarrow> bytes" where
  "escapar datagrama =
     bytes_replace (bytes_replace datagrama ESC (ESC @ ESC_ESC)) END (ESC @ ESC_END)"

text \<open>The substitutions of \<open>__raw_recv\<close> (lines 109-110) as a function of the raw frame.\<close>

definition desfazer :: "bytes \<Rightarrow> bytes" where
  "desfazer quadro_bruto =
     bytes_replace (bytes_replace quadro_bruto (ESC @ ESC_END) END) (ESC @ ESC_ESC) ESC"

text \<open>
  The frame that \<open>Enlace.enviar\<close> hands to the transport for a datagram: the last thing
  sent on a line that had been handed nothing before.
\<close>

definition quadro_enviado :: "bytes \<Rightarrow> bytes" where
  "quadro_enviado datagrama =
     last (enviados (linha_serial (Enlace_enviar (Enlace_init linha_nova :: unit Enlace) datagrama)))"

text \<open>What one byte of a datagram becomes on the wire under RFC 1055.\<close>

definition stuff :: "byte \<Rightarrow> bytes" where
  "stuff b = (if b = 0xDB then [0xDB, 0xDD] else if b = 0xC0 then [0xDB, 0xDC] else [b])"

text \<open>A callback that always returns.\<close>

definition aceita :: "unit callback" where
  "aceita datagrama u = (Returned, u)"

text \<open>A callback that counts its calls and raises on the first one.\<close>

definition recusa_primeiro :: "nat callback" where
  "recusa_primeiro datagrama n = (if n = 0 then Raised else Returned, Suc n)"

subsection \<open>Properties of a frame body\<close>

text \<open>
  Every ESC_END and ESC_ESC byte of the sequence comes right after an ESC byte, \<open>prev\<close>
  being the byte before the sequence.
\<close>

fun so_apos_ESC :: "byte \<Rightarrow> bytes \<Rightarrow> bool" where
  "so_apos_ESC prev [] = True"
| "so_apos_ESC prev (x # xs) =
     ((if x = 0xDC \<or> x = 0xDD then prev = 0xDB else True) \<and> so_apos_ESC x xs)"

section \<open>Substitution and splitting on the protocol constants\<close>

lemma replace1_Nil: "bytes_replace [] [a] new = []"
  by (simp add: bytes_replace.simps)

lemma replace1_Cons:
  "bytes_replace (x # xs) [a] new =
     (if x = a then new @ bytes_replace xs [a] new else x # bytes_replace xs [a] new)"
  by (subst bytes_replace.simps) simp

lemma replace2_Nil: "bytes_replace [] [a, b] new = []"
  by (simp add: bytes_replace.simps)

lemma replace2_single: "bytes_replace [x] [a, b] new = [x]"
  by (simp add: bytes_replace.simps)

lemma replace2_Cons:
  "bytes_replace (x # y # zs) [a, b] new =
     (if x = a \<and> y = b then new @ bytes_replace zs [a, b] new
      else x # bytes_replace (y # zs) [a, b] new)"
  by (subst bytes_replace.simps) simp

lemma replace2_other:
  "x \<noteq> a \<Longrightarrow> bytes_replace (x # zs) [a, b] new = x # bytes_replace zs [a, b] new"
  by (cases zs) (simp_all add: replace2_single replace2_Nil replace2_Cons)

lemma replace1_append:
  "bytes_replace (xs @ ys) [a] new = bytes_replace xs [a] new @ bytes_replace ys [a] new"
  by (induction xs) (simp_all add: replace1_Nil replace1_Cons)

lemma split_Nil: "split_aux [] sep cur = [cur]"
  by (simp add: split_aux.simps)

lemma split_Cons:
  "split_aux (x # xs) [a] cur =
     (if x = a then cur # split_aux xs [a] [] else split_aux xs [a] (cur @ [x]))"
  by (subst split_aux.simps) simp

section \<open>Byte stuffing\<close>

lemma escapar_Nil: "escapar [] = []"
  by (simp add: escapar_def ESC_def END_def replace1_Nil)

lemma escapar_Cons: "escapar (b # d) = stuff b @ escapar d"
  by (simp add: escapar_def ESC_def END_def ESC_ESC_def ESC_END_def stuff_def
      replace1_Nil replace1_Cons replace1_append)

lemma escapar_stuff: "escapar d = concat (map stuff d)"
  by (induction d) (simp_all add: escapar_Nil escapar_Cons)

lemma escapar_no_END: "0xC0 \<notin> set (escapar d)"
  by (induction d) (simp_all add: escapar_Nil escapar_Cons stuff_def)

lemma escapar_empty: "escapar d = [] \<longleftrightarrow> d = []"
  by (cases d) (simp_all add: escapar_Nil escapar_Cons stuff_def)

lemma unstuff_END:
  "bytes_replace (escapar d) [0xDB, 0xDC] [0xC0] =
     concat (map (\<lambda>b. if b = 0xDB then [0xDB, 0xDD] else [b]) d)"
  by (induction d)
     (simp_all add: escapar_Nil escapar_Cons stuff_def replace2_Nil replace2_Cons replace2_other)

lemma unstuff_ESC:
  "bytes_replace (concat (map (\<lambda>b. if b = 0xDB then [0xDB, 0xDD] else [b]) d))
     [0xDB, 0xDD] [0xDB] = d"
  by (induction d) (simp_all add: replace2_Nil replace2_Cons replace2_other)

lemma desfazer_escapar: "desfazer (escapar d) = d"
  by (simp add: desfazer_def ESC_def END_def ESC_ESC_def ESC_END_def unstuff_END unstuff_ESC)

lemma Enlace_enviar_escapar:
  "Enlace_enviar self d =
     self\<lparr>linha_serial := PTY_enviar (linha_serial self) (END @ escapar d @ END)\<rparr>"
  by (simp add: Enlace_enviar_def escapar_def)

text \<open>
  C6. \<open>Enlace.enviar\<close> hands the transport exactly END + d' + END, where d' is the datagram
  with every ESC replaced by ESC ESC_ESC and then, on that result, every END replaced by
  ESC ESC_END. Byte by byte, ESC becomes DB DD, END becomes DB DC and every other byte
  stays. The empty datagram gives the two-byte frame END END.
\<close>

theorem enviar_frame:
  "Enlace_enviar self d =
     self\<lparr>linha_serial := (linha_serial self)\<lparr>enviados := enviados (linha_serial self) @
        [END @ bytes_replace (bytes_replace d ESC (ESC @ ESC_ESC)) END (ESC @ ESC_END) @ END]\<rparr>\<rparr>
   \<and> END @ bytes_replace (bytes_replace d ESC (ESC @ ESC_ESC)) END (ESC @ ESC_END) @ END =
       [0xC0] @ concat (map stuff d) @ [0xC0]
   \<and> enviados (linha_serial (Enlace_enviar self [])) =
       enviados (linha_serial self) @ [[0xC0, 0xC0]]"
proof -
  have a: "bytes_replace (bytes_replace d ESC (ESC @ ESC_ESC)) END (ESC @ ESC_END) =
      concat (map stuff d)"
    using escapar_stuff [of d] by (simp add: escapar_def)
  have b: "Enlace_enviar self d =
     self\<lparr>linha_serial := (linha_serial self)\<lparr>enviados := enviados (linha_serial self) @
        [END @ bytes_replace (bytes_replace d ESC (ESC @ ESC_ESC)) END (ESC @ ESC_END) @ END]\<rparr>\<rparr>"
    by (simp add: Enlace_enviar_def PTY_enviar_def)
  have c: "enviados (linha_serial (Enlace_enviar self [])) =
       enviados (linha_serial self) @ [[0xC0, 0xC0]]"
    by (simp add: Enlace_enviar_escapar PTY_enviar_def escapar_Nil END_def)
  show ?thesis
    using a b c by (simp add: END_def)
qed

lemma so_apos_ESC_stuff:
  "b \<noteq> 0xDC \<Longrightarrow> b \<noteq> 0xDD \<Longrightarrow> (\<And>p. so_apos_ESC p xs) \<Longrightarrow> so_apos_ESC prev (stuff b @ xs)"
  by (simp add: stuff_def)

lemma so_apos_ESC_escapar:
  "0xDC \<notin> set d \<Longrightarrow> 0xDD \<notin> set d \<Longrightarrow> so_apos_ESC prev (escapar d)"
proof (induction d arbitrary: prev)
  case Nil
  then show ?case by (simp add: escapar_Nil)
next
  case (Cons b d)
  have rest: "\<And>p. so_apos_ESC p (escapar d)"
    using Cons.prems by (intro Cons.IH) simp_all
  have b: "b \<noteq> 0xDC" "b \<noteq> 0xDD"
    using Cons.prems by auto
  show ?case
    unfolding escapar_Cons using b rest by (rule so_apos_ESC_stuff)
qed

text \<open>
  C7, as amended. For every datagram that contains neither the byte ESC_END nor the byte
  ESC_ESC, the frame body that \<open>Enlace.enviar\<close> puts between the two END delimiters never
  contains ESC_END or ESC_ESC unescaped: every such byte of the body comes right after an
  ESC byte.
\<close>

theorem frame_body_escaped:
  assumes "0xDC \<notin> set d" and "0xDD \<notin> set d"
  shows "Enlace_enviar self d =
     self\<lparr>linha_serial := PTY_enviar (linha_serial self)
       (END @ bytes_replace (bytes_replace d ESC (ESC @ ESC_ESC)) END (ESC @ ESC_END) @ END)\<rparr>
   \<and> so_apos_ESC 0xC0 (bytes_replace (bytes_replace d ESC (ESC @ ESC_ESC)) END (ESC @ ESC_END))"
proof -
  have "so_apos_ESC 0xC0 (escapar d)"
    using assms by (rule so_apos_ESC_escapar)
  then show ?thesis
    by (simp add: Enlace_enviar_escapar escapar_def)
qed

theorem frame_body_escaped_witness:
  "0xDC \<notin> set [0x01, 0xC0, 0xDB, 0x02 :: byte] \<and> 0xDD \<notin> set [0x01, 0xC0, 0xDB, 0x02 :: byte]
   \<and> enviados (linha_serial (Enlace_enviar (Enlace_init linha_nova :: unit Enlace)
        [0x01, 0xC0, 0xDB, 0x02])) = [[0xC0] @ [0x01, 0xDB, 0xDC, 0xDB, 0xDD, 0x02] @ [0xC0]]
   \<and> so_apos_ESC 0xC0 [0x01, 0xDB, 0xDC, 0xDB, 0xDD, 0x02]"
proof -
  have h1: "0xDC \<notin> set [0x01, 0xC0, 0xDB, 0x02 :: byte]"
    by simp
  have h2: "0xDD \<notin> set [0x01, 0xC0, 0xDB, 0x02 :: byte]"
    by simp
  have b: "bytes_replace (bytes_replace [0x01, 0xC0, 0xDB, 0x02] ESC (ESC @ ESC_ESC)) END
      (ESC @ ESC_END) = [0x01, 0xDB, 0xDC, 0xDB, 0xDD, 0x02]"
    using escapar_stuff [of "[0x01, 0xC0, 0xDB, 0x02]"] by (simp add: escapar_def stuff_def)
  note f = frame_body_escaped [OF h1 h2, of "Enlace_init linha_nova :: unit Enlace"]
  have c1: "enviados (linha_serial (Enlace_enviar (Enlace_init linha_nova :: unit Enlace)
        [0x01, 0xC0, 0xDB, 0x02])) = [[0xC0] @ [0x01, 0xDB, 0xDC, 0xDB, 0xDD, 0x02] @ [0xC0]]"
    using f [THEN conjunct1, unfolded b]
    by (simp add: PTY_enviar_def Enlace_init_def PTY_registrar_recebedor_def linha_nova_def END_def)
  have c2: "so_apos_ESC 0xC0 [0x01, 0xDB, 0xDC, 0xDB, 0xDD, 0x02]"
    using f [THEN conjunct2] by (simp only: b)
  from h1 h2 c1 c2 show ?thesis
    by (intro conjI)
qed

text \<open>
  C7 as stated fails: for the one-byte datagram DC (ESC_END) the frame is C0 DC C0, and
  the ESC_END byte of its body comes right after the opening delimiter, not after an ESC.
\<close>

theorem frame_body_counterexample:
  "enviados (linha_serial (Enlace_enviar (Enlace_init linha_nova :: unit Enlace) [0xDC])) =
     [[0xC0] @ [0xDC] @ [0xC0]]
   \<and> \<not> so_apos_ESC 0xC0 [0xDC]"
  by (simp add: Enlace_enviar_escapar PTY_enviar_def Enlace_init_def PTY_registrar_recebedor_def
      linha_nova_def escapar_Cons escapar_Nil stuff_def END_def)

section \<open>Reassembly\<close>

lemma split_not_Nil: "split_aux s [a] cur \<noteq> []"
  by (induction s arbitrary: cur) (simp_all add: split_Nil split_Cons)

lemma split_clean: "a \<notin> set s \<Longrightarrow> split_aux (s @ t) [a] cur = split_aux t [a] (cur @ s)"
  by (induction s arbitrary: cur) (auto simp: split_Cons)

lemma split_clean_all: "a \<notin> set s \<Longrightarrow> split_aux s [a] cur = [cur @ s]"
  using split_clean [of a s "[]" cur] by (simp add: split_Nil)

lemma last_split_clean: "a \<notin> set cur \<Longrightarrow> a \<notin> set (last (split_aux s [a] cur))"
  by (induction s arbitrary: cur) (simp_all add: split_Nil split_Cons split_not_Nil)

lemma split_append:
  "split_aux (s @ t) [a] cur =
     butlast (split_aux s [a] cur) @ split_aux t [a] (last (split_aux s [a] cur))"
  by (induction s arbitrary: cur) (simp_all add: split_Nil split_Cons split_not_Nil)

lemma split_segments:
  "\<forall>s \<in> set segs. a \<notin> set s \<Longrightarrow>
   split_aux (concat (map (\<lambda>s. s @ [a]) segs) @ t) [a] [] = segs @ split_aux t [a] []"
  by (induction segs) (simp_all add: split_clean split_Cons)

lemma entregar_append:
  "entregar cb (xs @ ys) u =
     (case entregar cb xs u of (c1, u1) \<Rightarrow>
        (case entregar cb ys u1 of (c2, u2) \<Rightarrow> (c1 @ c2, u2)))"
  by (induction xs arbitrary: u) (simp_all add: Let_def split: prod.splits)

lemma entregar_args:
  "map fst (fst (entregar cb segs u)) = map desfazer (filter (\<lambda>s. s \<noteq> []) segs)"
  by (induction segs arbitrary: u) (simp_all add: Let_def desfazer_def case_prod_beta)

lemma raw_recv_None: "callback self = None \<Longrightarrow> Enlace_raw_recv self dados u = (Inr (), self, [], u)"
  by (simp add: Enlace_raw_recv_def)

lemma raw_recv_Some:
  "callback self = Some cb \<Longrightarrow>
   Enlace_raw_recv self dados u =
     (Inr (), self\<lparr>buffer := last (split_aux (buffer self @ dados) END [])\<rparr>,
      entregar cb (butlast (split_aux (buffer self @ dados) END [])) u)"
  by (simp add: Enlace_raw_recv_def bytes_split_def END_def Let_def split_not_Nil
       split: list.splits prod.splits)

lemma raw_recv_merge:
  assumes "callback self = Some cb"
  shows "Enlace_raw_recv self (a @ b) u =
     (case Enlace_raw_recv self a u of (r1, s1, c1, u1) \<Rightarrow>
        (case Enlace_raw_recv s1 b u1 of (r2, s2, c2, u2) \<Rightarrow> (r2, s2, c1 @ c2, u2)))"
proof -
  let ?P = "split_aux (buffer self @ a) END []"
  have clean: "0xC0 \<notin> set (last ?P)"
    by (simp add: END_def last_split_clean)
  have second: "split_aux (last ?P @ b) END [] = split_aux b END (last ?P)"
    using clean split_clean [of "0xC0" "last ?P" b "[]"] by (simp add: END_def)
  have whole: "split_aux (buffer self @ a @ b) END [] = butlast ?P @ split_aux b END (last ?P)"
    using split_append [of "buffer self @ a" b "0xC0" "[]"] by (simp add: END_def)
  have ne: "split_aux b END (last ?P) \<noteq> []"
    by (simp add: END_def split_not_Nil)
  show ?thesis
    using assms ne
    by (simp add: raw_recv_Some second whole butlast_append entregar_append split: prod.splits)
qed

lemma executar_chunks:
  "callback self = Some cb \<Longrightarrow> 0xC0 \<notin> set (buffer self) \<Longrightarrow>
   executar self (map Receber chunks) u = Enlace_raw_recv self (concat chunks) u"
proof (induction chunks arbitrary: self u)
  case Nil
  then show ?case
    by (simp add: raw_recv_Some END_def split_clean_all)
next
  case (Cons c cs)
  obtain c1 u1 where e: "entregar cb (butlast (split_aux (buffer self @ c) END [])) u = (c1, u1)"
    by (cases "entregar cb (butlast (split_aux (buffer self @ c) END [])) u")
  let ?s1 = "self\<lparr>buffer := last (split_aux (buffer self @ c) END [])\<rparr>"
  have first: "Enlace_raw_recv self c u = (Inr (), ?s1, c1, u1)"
    using Cons.prems(1) e by (simp add: raw_recv_Some)
  have "executar ?s1 (map Receber cs) u1 = Enlace_raw_recv ?s1 (concat cs) u1"
    using Cons.prems(1) by (intro Cons.IH) (simp_all add: END_def last_split_clean)
  then show ?case
    using first Cons.prems(1) by (simp add: raw_recv_merge)
qed

lemma entregar_empties: "entregar cb (replicate n []) u = ([], u)"
  by (induction n) simp_all

lemma entregar_one:
  "q \<noteq> [] \<Longrightarrow> entregar cb [q] u = ([(desfazer q, fst (cb (desfazer q) u))], snd (cb (desfazer q) u))"
  by (simp add: desfazer_def Let_def case_prod_beta)

lemma last_split:
  "last (split_aux s [a] cur) =
     (if a \<in> set s then rev (takeWhile (\<lambda>b. b \<noteq> a) (rev s)) else cur @ s)"
proof (induction s arbitrary: cur)
  case Nil
  then show ?case by (simp add: split_Nil)
next
  case (Cons x s)
  show ?case
  proof (cases "a \<in> set s")
    case True
    then have "takeWhile (\<lambda>b. b \<noteq> a) (rev s @ [x]) = takeWhile (\<lambda>b. b \<noteq> a) (rev s)"
      by (intro takeWhile_append1 [of a]) simp_all
    with True Cons.IH show ?thesis
      by (simp add: split_Cons split_not_Nil)
  next
    case False
    then have "takeWhile (\<lambda>b. b \<noteq> a) (rev s @ [x]) = rev s @ takeWhile (\<lambda>b. b \<noteq> a) [x]"
      by (intro takeWhile_append2) auto
    with False Cons.IH show ?thesis
      by (auto simp: split_Cons split_not_Nil)
  qed
qed

lemma tail_tail:
  "rev (takeWhile (\<lambda>b. b \<noteq> a) (rev (rev (takeWhile (\<lambda>b. b \<noteq> a) (rev s)) @ t))) =
   rev (takeWhile (\<lambda>b. b \<noteq> (a::'a)) (rev (s @ t)))"
proof (cases "a \<in> set t")
  case True
  then have "\<And>ys. takeWhile (\<lambda>b. b \<noteq> a) (rev t @ ys) = takeWhile (\<lambda>b. b \<noteq> a) (rev t)"
    by (intro takeWhile_append1 [of a]) simp_all
  then show ?thesis by simp
next
  case False
  then have "\<And>ys. takeWhile (\<lambda>b. b \<noteq> a) (rev t @ ys) = rev t @ takeWhile (\<lambda>b. b \<noteq> a) ys"
    by (intro takeWhile_append2) auto
  then show ?thesis by simp
qed

lemma quadro_enviado_eq: "quadro_enviado d = END @ escapar d @ END"
  by (simp add: quadro_enviado_def Enlace_enviar_escapar PTY_enviar_def)

lemma raw_recv_stream:
  assumes "callback self = Some cb"
    and "buffer self @ dados = concat (map (\<lambda>s. s @ END) segs) @ t"
    and "\<forall>s \<in> set segs. 0xC0 \<notin> set s" and "0xC0 \<notin> set t"
  shows "Enlace_raw_recv self dados u = (Inr (), self\<lparr>buffer := t\<rparr>, entregar cb segs u)"
  using assms split_segments [of segs "0xC0" t]
  by (simp add: raw_recv_Some END_def split_clean_all)

lemma novo_callback: "callback (Enlace_registrar_recebedor (Enlace_init linha) (Some cb)) = Some cb"
  by (simp add: Enlace_registrar_recebedor_def)

lemma novo_buffer: "buffer (Enlace_registrar_recebedor (Enlace_init linha) cb) = []"
  by (simp add: Enlace_registrar_recebedor_def Enlace_init_def)

lemma raw_recv_quadro:
  assumes "callback self = Some cb" and "buffer self = []"
  shows "Enlace_raw_recv self (quadro_enviado d) u =
     (if d = [] then (Inr (), self, [], u)
      else (Inr (), self, [(d, fst (cb d u))], snd (cb d u)))"
proof -
  have "buffer self @ quadro_enviado d = concat (map (\<lambda>s. s @ END) [[], escapar d]) @ []"
    using assms(2) by (simp add: quadro_enviado_eq)
  with assms(1) have "Enlace_raw_recv self (quadro_enviado d) u =
      (Inr (), self\<lparr>buffer := []\<rparr>, entregar cb [[], escapar d] u)"
    by (rule raw_recv_stream) (simp_all add: escapar_no_END)
  moreover have "self\<lparr>buffer := []\<rparr> = self"
    using assms(2) by simp
  ultimately show ?thesis
    by (simp add: escapar_empty desfazer_escapar desfazer_def [symmetric] case_prod_beta)
qed

lemma entregar_Cons_one:
  "entregar cb [x # q] u =
     ([(bytes_replace (bytes_replace (x # q) (ESC @ ESC_END) END) (ESC @ ESC_ESC) ESC,
        fst (cb (bytes_replace (bytes_replace (x # q) (ESC @ ESC_END) END) (ESC @ ESC_ESC) ESC) u))],
      snd (cb (bytes_replace (bytes_replace (x # q) (ESC @ ESC_END) END) (ESC @ ESC_ESC) ESC) u))"
  by (simp add: Let_def case_prod_beta)

text \<open>
  C1. Round trip. The frame that \<open>Enlace.enviar\<close> sends for a datagram d is END, the
  escaped datagram (ESC to ESC ESC_ESC, then END to ESC ESC_END) and END; the receive loop
  calls the callback of every non-empty raw frame with the result of the substitutions
  ESC ESC_END to END, then ESC ESC_ESC to ESC; these substitutions, applied to the escaped
  datagram, give d back for every byte sequence d, the empty one included; and a new
  Enlace that receives the frame of d delivers d itself (nothing when d is empty, since
  empty frames are skipped).
\<close>

theorem round_trip:
  "quadro_enviado d =
     END @ bytes_replace (bytes_replace d ESC (ESC @ ESC_ESC)) END (ESC @ ESC_END) @ END
   \<and> entregar cb [x # q] u =
       ([(bytes_replace (bytes_replace (x # q) (ESC @ ESC_END) END) (ESC @ ESC_ESC) ESC,
          fst (cb (bytes_replace (bytes_replace (x # q) (ESC @ ESC_END) END) (ESC @ ESC_ESC) ESC) u))],
        snd (cb (bytes_replace (bytes_replace (x # q) (ESC @ ESC_END) END) (ESC @ ESC_ESC) ESC) u))
   \<and> bytes_replace
       (bytes_replace
          (bytes_replace (bytes_replace d ESC (ESC @ ESC_ESC)) END (ESC @ ESC_END))
          (ESC @ ESC_END) END)
       (ESC @ ESC_ESC) ESC = d
   \<and> Enlace_raw_recv (Enlace_registrar_recebedor (Enlace_init linha) (Some cb))
       (quadro_enviado d) u =
       (if d = [] then (Inr (), Enlace_registrar_recebedor (Enlace_init linha) (Some cb), [], u)
        else (Inr (), Enlace_registrar_recebedor (Enlace_init linha) (Some cb),
              [(d, fst (cb d u))], snd (cb d u)))"
proof -
  have a: "quadro_enviado d =
     END @ bytes_replace (bytes_replace d ESC (ESC @ ESC_ESC)) END (ESC @ ESC_END) @ END"
    by (simp only: quadro_enviado_eq escapar_def)
  have "desfazer (escapar d) = d"
    by (rule desfazer_escapar)
  then have c: "bytes_replace
       (bytes_replace
          (bytes_replace (bytes_replace d ESC (ESC @ ESC_ESC)) END (ESC @ ESC_END))
          (ESC @ ESC_END) END)
       (ESC @ ESC_ESC) ESC = d"
    by (simp only: desfazer_def escapar_def)
  have e: "Enlace_raw_recv (Enlace_registrar_recebedor (Enlace_init linha) (Some cb))
       (quadro_enviado d) u =
       (if d = [] then (Inr (), Enlace_registrar_recebedor (Enlace_init linha) (Some cb), [], u)
        else (Inr (), Enlace_registrar_recebedor (Enlace_init linha) (Some cb),
              [(d, fst (cb d u))], snd (cb d u)))"
    by (rule raw_recv_quadro) (simp_all add: novo_callback novo_buffer)
  from a entregar_Cons_one [of cb x q u] c e show ?thesis
    by (intro conjI)
qed

text \<open>
  C2, as amended. Fragmentation: whatever the chunks into which the frame that
  \<open>Enlace.enviar\<close> builds for a datagram d is cut, feeding them in order to \<open>__raw_recv\<close>
  of a new Enlace with a callback registered calls the callback exactly once, with d, when d
  is not empty, and never when d is empty. The Enlace ends as it started, with an empty
  buffer.
\<close>

theorem fragmentation:
  assumes "concat chunks = quadro_enviado d"
  shows "executar (Enlace_registrar_recebedor (Enlace_init linha) (Some cb)) (map Receber chunks) u =
     (if d = [] then (Inr (), Enlace_registrar_recebedor (Enlace_init linha) (Some cb), [], u)
      else (Inr (), Enlace_registrar_recebedor (Enlace_init linha) (Some cb),
            [(d, fst (cb d u))], snd (cb d u)))"
proof -
  let ?novo = "Enlace_registrar_recebedor (Enlace_init linha) (Some cb)"
  have "executar ?novo (map Receber chunks) u = Enlace_raw_recv ?novo (concat chunks) u"
    by (rule executar_chunks [where cb = cb]) (simp_all add: novo_callback novo_buffer)
  then show ?thesis
    using assms by (simp add: raw_recv_quadro [where cb = cb] novo_callback novo_buffer)
qed

theorem fragmentation_witness:
  "concat [[0xC0, 0x01, 0xDB], [0xDC, 0x02, 0xC0]] = quadro_enviado [0x01, 0xC0, 0x02]
   \<and> executar (Enlace_registrar_recebedor (Enlace_init linha_nova) (Some aceita))
        (map Receber [[0xC0, 0x01, 0xDB], [0xDC, 0x02, 0xC0]]) () =
      (Inr (), Enlace_registrar_recebedor (Enlace_init linha_nova) (Some aceita),
       [([0x01, 0xC0, 0x02], Returned)], ())"
proof -
  have h: "concat [[0xC0, 0x01, 0xDB], [0xDC, 0x02, 0xC0]] = quadro_enviado [0x01, 0xC0, 0x02]"
    by (simp add: quadro_enviado_eq escapar_Cons escapar_Nil stuff_def END_def)
  show ?thesis
    using h fragmentation [OF h, of linha_nova aceita "()"] by (simp add: aceita_def)
qed

text \<open>
  C2 as stated fails for the empty datagram: its frame is C0 C0, and feeding it one byte
  at a time calls the callback not once but never.
\<close>

theorem fragmentation_counterexample:
  "concat [[0xC0], [0xC0]] = quadro_enviado []
   \<and> executar (Enlace_registrar_recebedor (Enlace_init linha_nova) (Some aceita))
        (map Receber [[0xC0], [0xC0]]) () =
      (Inr (), Enlace_registrar_recebedor (Enlace_init linha_nova) (Some aceita), [], ())"
  by (simp add: quadro_enviado_eq escapar_Nil END_def Enlace_raw_recv_def
      Enlace_registrar_recebedor_def Enlace_init_def bytes_split_def split_Cons split_Nil)

lemma raw_recv_two:
  assumes "callback self = Some cb" and "buffer self = []"
  shows "Enlace_raw_recv self (quadro_enviado d1 @ quadro_enviado d2) u =
     (Inr (), self, entregar cb [escapar d1, escapar d2] u)"
proof -
  have "buffer self @ quadro_enviado d1 @ quadro_enviado d2 =
      concat (map (\<lambda>s. s @ END) [[], escapar d1, [], escapar d2]) @ []"
    using assms(2) by (simp add: quadro_enviado_eq)
  with assms(1) have "Enlace_raw_recv self (quadro_enviado d1 @ quadro_enviado d2) u =
      (Inr (), self\<lparr>buffer := []\<rparr>, entregar cb [[], escapar d1, [], escapar d2] u)"
    by (rule raw_recv_stream) (simp_all add: escapar_no_END)
  moreover have "self\<lparr>buffer := []\<rparr> = self"
    using assms(2) by simp
  ultimately show ?thesis
    by simp
qed

lemma entregar_two:
  "d1 \<noteq> [] \<Longrightarrow> d2 \<noteq> [] \<Longrightarrow>
   entregar cb [escapar d1, escapar d2] u =
     ([(d1, fst (cb d1 u)), (d2, fst (cb d2 (snd (cb d1 u))))], snd (cb d2 (snd (cb d1 u))))"
  by (simp add: escapar_empty desfazer_escapar desfazer_def [symmetric] case_prod_beta)

lemma filter_escapar:
  "map desfazer (filter (\<lambda>s. s \<noteq> []) (map escapar ds)) = filter (\<lambda>d. d \<noteq> []) ds"
  by (induction ds) (simp_all add: escapar_empty desfazer_escapar)

text \<open>
  C3, as amended. Concatenation: the frames of d1 and d2 in one chunk, delivered to a new
  Enlace with a callback registered, call the callback with those of d1 and d2 that are
  not empty, in that order: twice, with d1 and then with d2, when neither is empty. More
  generally, whenever the buffer followed by the chunk is a sequence of END-terminated
  segments and an unterminated rest, the callback is called with the unescaped non-empty
  segments from left to right, and the rest becomes the buffer.
\<close>

theorem concatenation:
  "(case Enlace_raw_recv (Enlace_registrar_recebedor (Enlace_init linha) (Some cb))
          (quadro_enviado d1 @ quadro_enviado d2) u of
      (r, self', chamadas, u') \<Rightarrow>
        r = Inr () \<and> self' = Enlace_registrar_recebedor (Enlace_init linha) (Some cb)
        \<and> map fst chamadas = filter (\<lambda>d. d \<noteq> []) [d1, d2])
   \<and> (d1 \<noteq> [] \<and> d2 \<noteq> [] \<longrightarrow>
        Enlace_raw_recv (Enlace_registrar_recebedor (Enlace_init linha) (Some cb))
          (quadro_enviado d1 @ quadro_enviado d2) u =
        (Inr (), Enlace_registrar_recebedor (Enlace_init linha) (Some cb),
         [(d1, fst (cb d1 u)), (d2, fst (cb d2 (snd (cb d1 u))))],
         snd (cb d2 (snd (cb d1 u)))))
   \<and> (callback self = Some cb \<and> buffer self @ dados = concat (map (\<lambda>s. s @ END) segs) @ t
        \<and> (\<forall>s \<in> set segs. 0xC0 \<notin> set s) \<and> 0xC0 \<notin> set t \<longrightarrow>
        (case Enlace_raw_recv self dados u of
           (r, self', chamadas, u') \<Rightarrow>
             r = Inr () \<and> buffer self' = t
             \<and> map fst chamadas = map desfazer (filter (\<lambda>s. s \<noteq> []) segs)))"
proof -
  let ?novo = "Enlace_registrar_recebedor (Enlace_init linha) (Some cb)"
  have two: "Enlace_raw_recv ?novo (quadro_enviado d1 @ quadro_enviado d2) u =
      (Inr (), ?novo, entregar cb [escapar d1, escapar d2] u)"
    by (rule raw_recv_two) (simp_all add: novo_callback novo_buffer)
  have "map fst (fst (entregar cb [escapar d1, escapar d2] u)) = filter (\<lambda>d. d \<noteq> []) [d1, d2]"
    using filter_escapar [of "[d1, d2]"] by (simp only: entregar_args list.map)
  then have a: "case Enlace_raw_recv ?novo (quadro_enviado d1 @ quadro_enviado d2) u of
      (r, self', chamadas, u') \<Rightarrow>
        r = Inr () \<and> self' = ?novo \<and> map fst chamadas = filter (\<lambda>d. d \<noteq> []) [d1, d2]"
    by (simp add: two case_prod_beta)
  have b: "d1 \<noteq> [] \<and> d2 \<noteq> [] \<longrightarrow>
        Enlace_raw_recv ?novo (quadro_enviado d1 @ quadro_enviado d2) u =
        (Inr (), ?novo, [(d1, fst (cb d1 u)), (d2, fst (cb d2 (snd (cb d1 u))))],
         snd (cb d2 (snd (cb d1 u))))"
    using entregar_two [of d1 d2 cb u] by (simp only: two) simp
  have c: "callback self = Some cb \<and> buffer self @ dados = concat (map (\<lambda>s. s @ END) segs) @ t
        \<and> (\<forall>s \<in> set segs. 0xC0 \<notin> set s) \<and> 0xC0 \<notin> set t \<longrightarrow>
        (case Enlace_raw_recv self dados u of
           (r, self', chamadas, u') \<Rightarrow>
             r = Inr () \<and> buffer self' = t
             \<and> map fst chamadas = map desfazer (filter (\<lambda>s. s \<noteq> []) segs))"
  proof (intro impI, elim conjE)
    assume h: "callback self = Some cb"
      "buffer self @ dados = concat (map (\<lambda>s. s @ END) segs) @ t"
      "\<forall>s \<in> set segs. 0xC0 \<notin> set s" "0xC0 \<notin> set t"
    have "Enlace_raw_recv self dados u = (Inr (), self\<lparr>buffer := t\<rparr>, entregar cb segs u)"
      using h by (rule raw_recv_stream)
    then show "case Enlace_raw_recv self dados u of
           (r, self', chamadas, u') \<Rightarrow>
             r = Inr () \<and> buffer self' = t
             \<and> map fst chamadas = map desfazer (filter (\<lambda>s. s \<noteq> []) segs)"
      using entregar_args [of cb segs u] by (simp add: case_prod_beta)
  qed
  from a b c show ?thesis
    by (intro conjI)
qed

lemma desfazer_plain: "0xDB \<notin> set q \<Longrightarrow> desfazer q = q"
proof -
  have a: "\<And>b new. 0xDB \<notin> set q \<Longrightarrow> bytes_replace q [0xDB, b] new = q"
    by (induction q) (simp_all add: replace2_Nil replace2_other)
  assume "0xDB \<notin> set q"
  then show ?thesis
    by (simp add: desfazer_def ESC_def ESC_END_def ESC_ESC_def a)
qed

theorem concatenation_witness:
  "([0x01] \<noteq> ([] :: bytes) \<and> [0x02] \<noteq> ([] :: bytes))
   \<and> Enlace_raw_recv (Enlace_registrar_recebedor (Enlace_init linha_nova) (Some aceita))
          (quadro_enviado [0x01] @ quadro_enviado [0x02]) () =
        (Inr (), Enlace_registrar_recebedor (Enlace_init linha_nova) (Some aceita),
         [([0x01], Returned), ([0x02], Returned)], ())
   \<and> callback (Enlace_registrar_recebedor (Enlace_init linha_nova) (Some aceita)) = Some aceita
   \<and> buffer (Enlace_registrar_recebedor (Enlace_init linha_nova) (Some aceita))
        @ [0x41, 0xC0, 0x42, 0xC0, 0x43] =
      concat (map (\<lambda>s. s @ END) [[0x41], [0x42]]) @ [0x43]
   \<and> 0xC0 \<notin> set [0x41 :: byte] \<and> 0xC0 \<notin> set [0x42 :: byte] \<and> 0xC0 \<notin> set [0x43 :: byte]
   \<and> (case Enlace_raw_recv (Enlace_registrar_recebedor (Enlace_init linha_nova) (Some aceita))
          [0x41, 0xC0, 0x42, 0xC0, 0x43] () of
        (r, self', chamadas, u') \<Rightarrow>
          r = Inr () \<and> buffer self' = [0x43] \<and> map fst chamadas = [[0x41], [0x42]])"
proof -
  let ?novo = "Enlace_registrar_recebedor (Enlace_init linha_nova) (Some aceita)"
  have h1: "[0x01] \<noteq> ([] :: bytes) \<and> [0x02] \<noteq> ([] :: bytes)"
    by simp
  have h2: "callback ?novo = Some aceita
     \<and> buffer ?novo @ [0x41, 0xC0, 0x42, 0xC0, 0x43] =
        concat (map (\<lambda>s. s @ END) [[0x41], [0x42]]) @ [0x43]
     \<and> (\<forall>s \<in> set [[0x41], [0x42 :: byte]]. 0xC0 \<notin> set s) \<and> 0xC0 \<notin> set [0x43 :: byte]"
    by (simp add: novo_callback novo_buffer END_def)
  have d: "map desfazer (filter (\<lambda>s. s \<noteq> []) [[0x41], [0x42]]) = [[0x41], [0x42]]"
    by (simp add: desfazer_plain)
  note c = concatenation [of linha_nova aceita "[0x01]" "[0x02]" "()" ?novo
      "[0x41, 0xC0, 0x42, 0xC0, 0x43]" "[[0x41], [0x42]]" "[0x43]"]
  have c2: "Enlace_raw_recv ?novo (quadro_enviado [0x01] @ quadro_enviado [0x02]) () =
        (Inr (), ?novo, [([0x01], Returned), ([0x02], Returned)], ())"
    using c [THEN conjunct2, THEN conjunct1, THEN mp, OF h1] by (simp add: aceita_def)
  have c3: "case Enlace_raw_recv ?novo [0x41, 0xC0, 0x42, 0xC0, 0x43] () of
        (r, self', chamadas, u') \<Rightarrow>
          r = Inr () \<and> buffer self' = [0x43] \<and> map fst chamadas = [[0x41], [0x42]]"
    using c [THEN conjunct2, THEN conjunct2, THEN mp, OF h2] by (simp only: d)
  have h3: "0xC0 \<notin> set [0x41 :: byte]" "0xC0 \<notin> set [0x42 :: byte]"
    by simp_all
  from h1 h2 h3 c2 c3 show ?thesis
    by (intro conjI) (elim conjE, assumption)+
qed

text \<open>
  C3 as stated fails when one datagram is empty: the frames of the empty datagram and
  of the datagram 41 are C0 C0 C0 41 C0, and the callback is called once, with 41, not
  twice.
\<close>

theorem concatenation_counterexample:
  "quadro_enviado [] @ quadro_enviado [0x41] = [0xC0, 0xC0, 0xC0, 0x41, 0xC0]
   \<and> Enlace_raw_recv (Enlace_registrar_recebedor (Enlace_init linha_nova) (Some aceita))
        (quadro_enviado [] @ quadro_enviado [0x41]) () =
      (Inr (), Enlace_registrar_recebedor (Enlace_init linha_nova) (Some aceita),
       [([0x41], Returned)], ())"
  by (simp add: quadro_enviado_eq escapar_Nil escapar_Cons stuff_def END_def ESC_def ESC_END_def
      ESC_ESC_def Enlace_raw_recv_def Enlace_registrar_recebedor_def Enlace_init_def
      bytes_split_def split_Cons split_Nil replace2_single aceita_def)

text \<open>
  C8. With no callback registered, \<open>__raw_recv\<close> does nothing: it returns without an
  error, calls nothing, and the Enlace (its buffer included) and the layer above are as
  they were.
\<close>

theorem no_callback_noop:
  "callback self = None \<Longrightarrow> Enlace_raw_recv self dados u = (Inr (), self, [], u)"
  by (simp add: Enlace_raw_recv_def)

theorem no_callback_noop_witness:
  "callback (Enlace_init linha_nova :: unit Enlace) = None
   \<and> Enlace_raw_recv (Enlace_init linha_nova) [0xC0, 0x41, 0xC0] () =
       (Inr (), Enlace_init linha_nova, [], ())"
proof -
  have h: "callback (Enlace_init linha_nova :: unit Enlace) = None"
    by (simp add: Enlace_init_def)
  show ?thesis
    using h no_callback_noop [OF h, of "[0xC0, 0x41, 0xC0]" "()"] by simp
qed

text \<open>
  C9. For an address that is not a key of \<open>enlaces\<close>, \<open>CamadaEnlace.enviar\<close> raises
  KeyError and the CamadaEnlace is as it was: the mapping, and in every Enlace the buffer,
  the callback and what its line was handed.
\<close>

theorem unknown_destination:
  "next_hop \<notin> dom (enlaces self) \<Longrightarrow>
   CamadaEnlace_enviar self datagrama next_hop = (Inl KeyError, self)"
  by (cases "enlaces self next_hop") (auto simp: CamadaEnlace_enviar_def)

theorem unknown_destination_witness:
  "''10.0.0.2'' \<notin> dom (enlaces (CamadaEnlace_init [''10.0.0.1'' \<mapsto> linha_nova] :: unit CamadaEnlace))
   \<and> CamadaEnlace_enviar (CamadaEnlace_init [''10.0.0.1'' \<mapsto> linha_nova] :: unit CamadaEnlace)
        [0x01, 0x02] ''10.0.0.2'' =
      (Inl KeyError, CamadaEnlace_init [''10.0.0.1'' \<mapsto> linha_nova])"
proof -
  have h: "''10.0.0.2'' \<notin>
      dom (enlaces (CamadaEnlace_init [''10.0.0.1'' \<mapsto> linha_nova] :: unit CamadaEnlace))"
    by (simp add: CamadaEnlace_init_def dom_def)
  show ?thesis
    using h unknown_destination [OF h, of "[0x01, 0x02]"] by simp
qed

section \<open>Empty frames\<close>

lemma concat_ENDs: "concat (replicate n END) = concat (map (\<lambda>s. s @ END) (replicate n []))"
  by (induction n) simp_all

lemma novo_fix:
  "(Enlace_registrar_recebedor (Enlace_init linha) (Some cb))\<lparr>buffer := []\<rparr> =
   Enlace_registrar_recebedor (Enlace_init linha) (Some cb)"
  by (simp add: Enlace_registrar_recebedor_def Enlace_init_def)



lemma raw_recv_ENDs:
  "Enlace_raw_recv (Enlace_registrar_recebedor (Enlace_init linha) (Some cb))
      (concat (replicate n END)) u =
     (Inr (), Enlace_registrar_recebedor (Enlace_init linha) (Some cb), [], u)"
proof -
  let ?novo = "Enlace_registrar_recebedor (Enlace_init linha) (Some cb)"
  have "buffer ?novo @ concat (replicate n END) =
      concat (map (\<lambda>s. s @ END) (replicate n [])) @ []"
    by (simp only: novo_buffer concat_ENDs append_Nil append_Nil2)
  with novo_callback have "Enlace_raw_recv ?novo (concat (replicate n END)) u =
      (Inr (), ?novo\<lparr>buffer := []\<rparr>, entregar cb (replicate n []) u)"
    by (rule raw_recv_stream) simp_all
  then show ?thesis
    by (simp only: novo_fix entregar_empties)
qed

lemma replace2_empty: "bytes_replace q [a, b] [c] = [] \<longleftrightarrow> q = []"
proof (cases q)
  case Nil
  then show ?thesis by (simp add: replace2_Nil)
next
  case (Cons x zs)
  then show ?thesis
    by (cases zs) (simp_all add: replace2_single replace2_Cons)
qed

lemma desfazer_empty: "desfazer q = [] \<longleftrightarrow> q = []"
  unfolding desfazer_def ESC_def ESC_END_def ESC_ESC_def END_def append_Cons append_Nil
  by (simp only: replace2_empty)

lemma desfazer_nonempty: "q \<noteq> [] \<Longrightarrow> [] \<noteq> desfazer q"
  by (metis desfazer_empty)

lemma entregar_no_empty: "[] \<notin> set (map fst (fst (entregar cb segs u)))"
proof -
  have "[] \<notin> set (map desfazer (filter (\<lambda>s. s \<noteq> []) segs))"
    by (induction segs) (simp_all add: desfazer_nonempty)
  then show ?thesis
    unfolding entregar_args .
qed

lemma raw_recv_example:
  "Enlace_raw_recv (Enlace_registrar_recebedor (Enlace_init linha) (Some cb))
        [0xC0, 0xC0, 0xC0, 0x41, 0xC0] u =
      (Inr (), Enlace_registrar_recebedor (Enlace_init linha) (Some cb),
       [([0x41], fst (cb [0x41] u))], snd (cb [0x41] u))"
proof -
  let ?novo = "Enlace_registrar_recebedor (Enlace_init linha) (Some cb)"
  have "buffer ?novo @ [0xC0, 0xC0, 0xC0, 0x41, 0xC0] =
      concat (map (\<lambda>s. s @ END) [[], [], [], [0x41]]) @ []"
    by (simp add: novo_buffer END_def)
  with novo_callback have "Enlace_raw_recv ?novo [0xC0, 0xC0, 0xC0, 0x41, 0xC0] u =
      (Inr (), ?novo\<lparr>buffer := []\<rparr>, entregar cb [[], [], [], [0x41]] u)"
    by (rule raw_recv_stream) simp_all
  moreover have "entregar cb [[], [], [], [0x41]] u =
      ([([0x41], fst (cb [0x41] u))], snd (cb [0x41] u))"
    using entregar_one [of "[0x41]" cb u] desfazer_plain [of "[0x41]"] by simp
  ultimately show ?thesis
    by (simp only: novo_fix)
qed

text \<open>
  C5. A chunk of two or more END bytes, delivered to a new Enlace with a callback
  registered, calls nothing. In general, when the buffer followed by the chunk is a
  sequence of END-terminated segments and an unterminated rest, there are as many calls as
  non-empty segments and no call has an empty datagram. The chunk C0 C0 C0 41 C0 gives
  exactly one call, with the datagram 41.
\<close>

theorem empty_frames:
  "Enlace_raw_recv (Enlace_registrar_recebedor (Enlace_init linha) (Some cb))
      (concat (replicate (n + 2) END)) u =
     (Inr (), Enlace_registrar_recebedor (Enlace_init linha) (Some cb), [], u)
   \<and> (callback self = Some cb \<and> buffer self @ dados = concat (map (\<lambda>s. s @ END) segs) @ t
        \<and> (\<forall>s \<in> set segs. 0xC0 \<notin> set s) \<and> 0xC0 \<notin> set t \<longrightarrow>
        (case Enlace_raw_recv self dados u of
           (r, self', chamadas, u') \<Rightarrow>
             r = Inr () \<and> length chamadas = length (filter (\<lambda>s. s \<noteq> []) segs)
             \<and> [] \<notin> set (map fst chamadas)))
   \<and> Enlace_raw_recv (Enlace_registrar_recebedor (Enlace_init linha) (Some cb))
        [0xC0, 0xC0, 0xC0, 0x41, 0xC0] u =
      (Inr (), Enlace_registrar_recebedor (Enlace_init linha) (Some cb),
       [([0x41], fst (cb [0x41] u))], snd (cb [0x41] u))"
proof -
  have b: "callback self = Some cb \<and> buffer self @ dados = concat (map (\<lambda>s. s @ END) segs) @ t
        \<and> (\<forall>s \<in> set segs. 0xC0 \<notin> set s) \<and> 0xC0 \<notin> set t \<longrightarrow>
        (case Enlace_raw_recv self dados u of
           (r, self', chamadas, u') \<Rightarrow>
             r = Inr () \<and> length chamadas = length (filter (\<lambda>s. s \<noteq> []) segs)
             \<and> [] \<notin> set (map fst chamadas))"
  proof (intro impI, elim conjE)
    assume h: "callback self = Some cb"
      "buffer self @ dados = concat (map (\<lambda>s. s @ END) segs) @ t"
      "\<forall>s \<in> set segs. 0xC0 \<notin> set s" "0xC0 \<notin> set t"
    have r: "Enlace_raw_recv self dados u = (Inr (), self\<lparr>buffer := t\<rparr>, entregar cb segs u)"
      using h by (rule raw_recv_stream)
    have "length (map fst (fst (entregar cb segs u))) = length (filter (\<lambda>s. s \<noteq> []) segs)"
      by (simp only: entregar_args length_map)
    then show "case Enlace_raw_recv self dados u of
           (r, self', chamadas, u') \<Rightarrow>
             r = Inr () \<and> length chamadas = length (filter (\<lambda>s. s \<noteq> []) segs)
             \<and> [] \<notin> set (map fst chamadas)"
      using entregar_no_empty [of cb segs u] by (simp add: r case_prod_beta)
  qed
  from raw_recv_ENDs [of linha cb "n + 2" u] b raw_recv_example [of linha cb u] show ?thesis
    by (intro conjI)
qed

theorem empty_frames_witness:
  "callback (Enlace_registrar_recebedor (Enlace_init linha_nova) (Some aceita)) = Some aceita
   \<and> buffer (Enlace_registrar_recebedor (Enlace_init linha_nova) (Some aceita))
        @ [0xC0, 0x41, 0xC0, 0xC0, 0x42] =
      concat (map (\<lambda>s. s @ END) [[], [0x41], []]) @ [0x42]
   \<and> 0xC0 \<notin> set [0x41 :: byte] \<and> 0xC0 \<notin> set [0x42 :: byte]
   \<and> (case Enlace_raw_recv (Enlace_registrar_recebedor (Enlace_init linha_nova) (Some aceita))
          [0xC0, 0x41, 0xC0, 0xC0, 0x42] () of
        (r, self', chamadas, u') \<Rightarrow>
          r = Inr () \<and> length chamadas = 1 \<and> [] \<notin> set (map fst chamadas))
   \<and> Enlace_raw_recv (Enlace_registrar_recebedor (Enlace_init linha_nova) (Some aceita))
        (concat (replicate 2 END)) () =
      (Inr (), Enlace_registrar_recebedor (Enlace_init linha_nova) (Some aceita), [], ())"
proof -
  let ?novo = "Enlace_registrar_recebedor (Enlace_init linha_nova) (Some aceita)"
  have h: "callback ?novo = Some aceita
     \<and> buffer ?novo @ [0xC0, 0x41, 0xC0, 0xC0, 0x42] =
        concat (map (\<lambda>s. s @ END) [[], [0x41], []]) @ [0x42]
     \<and> (\<forall>s \<in> set [[], [0x41 :: byte], []]. 0xC0 \<notin> set s) \<and> 0xC0 \<notin> set [0x42 :: byte]"
    by (simp add: novo_callback novo_buffer END_def)
  note e = empty_frames [of linha_nova aceita 0 "()" ?novo "[0xC0, 0x41, 0xC0, 0xC0, 0x42]"
      "[[], [0x41], []]" "[0x42]"]
  have c: "case Enlace_raw_recv ?novo [0xC0, 0x41, 0xC0, 0xC0, 0x42] () of
        (r, self', chamadas, u') \<Rightarrow>
          r = Inr () \<and> length chamadas = 1 \<and> [] \<notin> set (map fst chamadas)"
    using e [THEN conjunct2, THEN conjunct1, THEN mp, OF h] by simp
  have a: "Enlace_raw_recv ?novo (concat (replicate 2 END)) () = (Inr (), ?novo, [], ())"
    using e [THEN conjunct1] by (simp add: numeral_2_eq_2)
  have h3: "0xC0 \<notin> set [0x41 :: byte]"
    by simp
  from h h3 c a show ?thesis
    by (intro conjI) (elim conjE, assumption)+
qed

section \<open>The buffer, and callbacks that raise\<close>

lemma tail_clean: "a \<notin> set s \<Longrightarrow> rev (takeWhile (\<lambda>b. b \<noteq> a) (rev s)) = s"
proof -
  assume "a \<notin> set s"
  then have eq: "takeWhile (\<lambda>b. b \<noteq> a) (rev s) = rev s"
    by (intro takeWhile_eq_all_conv [THEN iffD2]) auto
  show ?thesis
    unfolding eq by (rule rev_rev_ident)
qed

lemma tail_no_sep: "a \<notin> set (rev (takeWhile (\<lambda>b. b \<noteq> a) xs))"
  using set_takeWhileD [of a "\<lambda>b. b \<noteq> a" xs] by auto

lemma last_split_tail: "last (split_aux s [a] []) = rev (takeWhile (\<lambda>b. b \<noteq> a) (rev s))"
  by (simp add: last_split tail_clean)

lemma raw_recv_buffer:
  "callback self = Some cb \<Longrightarrow>
   Enlace_raw_recv self dados u =
     (Inr (), self\<lparr>buffer := rev (takeWhile (\<lambda>b. b \<noteq> 0xC0) (rev (buffer self @ dados)))\<rparr>,
      entregar cb (butlast (split_aux (buffer self @ dados) END [])) u)"
  using last_split_tail [of "buffer self @ dados" "0xC0"]
  by (simp only: raw_recv_Some END_def)

lemma executar_buffer:
  "0xC0 \<notin> set (buffer self) \<Longrightarrow>
   (case executar self acoes u of
      (r, self', chamadas, u') \<Rightarrow>
        r = Inr () \<and>
        buffer self' =
          rev (takeWhile (\<lambda>b. b \<noteq> 0xC0) (rev (buffer self @ processado (callback self) acoes))))"
proof (induction acoes arbitrary: self u)
  case Nil
  then show ?case
    by (simp add: tail_clean)
next
  case (Cons a acoes)
  show ?case
  proof (cases a)
    case (Registrar cb)
    have "0xC0 \<notin> set (buffer (Enlace_registrar_recebedor self cb))"
      using Cons.prems by (simp add: Enlace_registrar_recebedor_def)
    from Cons.IH [OF this, of u] show ?thesis
      by (simp add: Registrar Enlace_registrar_recebedor_def)
  next
    case (Enviar d)
    have "0xC0 \<notin> set (buffer (Enlace_enviar self d))"
      using Cons.prems by (simp add: Enlace_enviar_escapar)
    from Cons.IH [OF this, of u] show ?thesis
      by (simp add: Enviar Enlace_enviar_escapar)
  next
    case (Receber dados)
    show ?thesis
    proof (cases "callback self")
      case None
      from Cons.IH [OF Cons.prems, of u] show ?thesis
        by (simp add: Receber None raw_recv_None case_prod_beta)
    next
      case (Some cb)
      let ?s1 = "self\<lparr>buffer := rev (takeWhile (\<lambda>b. b \<noteq> 0xC0) (rev (buffer self @ dados)))\<rparr>"
      obtain c1 u1 where e: "entregar cb (butlast (split_aux (buffer self @ dados) END [])) u = (c1, u1)"
        by (cases "entregar cb (butlast (split_aux (buffer self @ dados) END [])) u")
      have first: "Enlace_raw_recv self dados u = (Inr (), ?s1, c1, u1)"
        using raw_recv_buffer [OF Some, of dados u] by (simp only: e)
      have "0xC0 \<notin> set (buffer ?s1)"
        using tail_no_sep [of "0xC0" "rev (buffer self @ dados)"] by simp
      from Cons.IH [OF this, of u1] show ?thesis
        using tail_tail [of "0xC0" "buffer self @ dados" "processado (Some cb) acoes"]
        by (simp add: Receber Some first case_prod_beta)
    qed
  qed
qed

text \<open>
  C10. Buffer invariant: after any sequence of calls on a new Enlace (chunks delivered
  with or without a callback registered, callbacks that return or raise, datagrams sent),
  no call has raised, the buffer contains no END byte, and it is the part of the processed
  stream after its last END byte (the whole processed stream when it has none).
\<close>

theorem buffer_invariant:
  "case executar (Enlace_init linha) acoes u of
     (r, self', chamadas, u') \<Rightarrow>
       r = Inr () \<and> 0xC0 \<notin> set (buffer self')
       \<and> buffer self' = rev (takeWhile (\<lambda>b. b \<noteq> 0xC0) (rev (processado None acoes)))"
proof -
  have "0xC0 \<notin> set (buffer (Enlace_init linha :: 'a Enlace))"
    by (simp add: Enlace_init_def)
  from executar_buffer [OF this, of acoes u] show ?thesis
    using tail_no_sep [of "0xC0" "rev (processado None acoes)"]
    by (simp add: Enlace_init_def case_prod_beta)
qed

text \<open>
  C4. Fault isolation: when the callback raises on the first of two frames of one chunk,
  the second frame is still delivered and \<open>__raw_recv\<close> returns normally. In general, the
  Enlace after \<open>__raw_recv\<close> and the datagrams passed to the callback do not depend on the
  callback or on which of its calls raise: they are the same for any two callbacks, and
  the buffer is the part of the old buffer followed by the chunk after the last END byte.
\<close>

theorem fault_isolation:
  "(d1 \<noteq> [] \<and> d2 \<noteq> [] \<and> fst (cb d1 u) = Raised \<longrightarrow>
      Enlace_raw_recv (Enlace_registrar_recebedor (Enlace_init linha) (Some cb))
        (quadro_enviado d1 @ quadro_enviado d2) u =
      (Inr (), Enlace_registrar_recebedor (Enlace_init linha) (Some cb),
       [(d1, Raised), (d2, fst (cb d2 (snd (cb d1 u))))], snd (cb d2 (snd (cb d1 u)))))
   \<and> (case Enlace_raw_recv (self\<lparr>callback := Some cb\<rparr>) dados u of
        (r, self1, chamadas1, u1) \<Rightarrow>
          (case Enlace_raw_recv (self\<lparr>callback := Some cb'\<rparr>) dados u2 of
             (r', self2, chamadas2, u2') \<Rightarrow>
               r = Inr () \<and> r' = Inr ()
               \<and> self1 = self\<lparr>callback := Some cb,
                    buffer := rev (takeWhile (\<lambda>b. b \<noteq> 0xC0) (rev (buffer self @ dados)))\<rparr>
               \<and> buffer self2 = buffer self1
               \<and> map fst chamadas1 = map fst chamadas2))"
proof -
  let ?novo = "Enlace_registrar_recebedor (Enlace_init linha) (Some cb)"
  have two: "Enlace_raw_recv ?novo (quadro_enviado d1 @ quadro_enviado d2) u =
      (Inr (), ?novo, entregar cb [escapar d1, escapar d2] u)"
    by (rule raw_recv_two) (simp_all add: novo_callback novo_buffer)
  have a: "d1 \<noteq> [] \<and> d2 \<noteq> [] \<and> fst (cb d1 u) = Raised \<longrightarrow>
      Enlace_raw_recv ?novo (quadro_enviado d1 @ quadro_enviado d2) u =
      (Inr (), ?novo, [(d1, Raised), (d2, fst (cb d2 (snd (cb d1 u))))],
       snd (cb d2 (snd (cb d1 u))))"
    using entregar_two [of d1 d2 cb u] by (simp only: two) simp
  have r1: "Enlace_raw_recv (self\<lparr>callback := Some cb\<rparr>) dados u =
      (Inr (), self\<lparr>callback := Some cb,
          buffer := rev (takeWhile (\<lambda>b. b \<noteq> 0xC0) (rev (buffer self @ dados)))\<rparr>,
       entregar cb (butlast (split_aux (buffer self @ dados) END [])) u)"
    using raw_recv_buffer [of "self\<lparr>callback := Some cb\<rparr>" cb dados u] by simp
  have r2: "Enlace_raw_recv (self\<lparr>callback := Some cb'\<rparr>) dados u2 =
      (Inr (), self\<lparr>callback := Some cb',
          buffer := rev (takeWhile (\<lambda>b. b \<noteq> 0xC0) (rev (buffer self @ dados)))\<rparr>,
       entregar cb' (butlast (split_aux (buffer self @ dados) END [])) u2)"
    using raw_recv_buffer [of "self\<lparr>callback := Some cb'\<rparr>" cb' dados u2] by simp
  have args: "map fst (fst (entregar cb (butlast (split_aux (buffer self @ dados) END [])) u)) =
      map fst (fst (entregar cb' (butlast (split_aux (buffer self @ dados) END [])) u2))"
    by (simp only: entregar_args)
  have b: "case Enlace_raw_recv (self\<lparr>callback := Some cb\<rparr>) dados u of
        (r, self1, chamadas1, u1) \<Rightarrow>
          (case Enlace_raw_recv (self\<lparr>callback := Some cb'\<rparr>) dados u2 of
             (r', self2, chamadas2, u2') \<Rightarrow>
               r = Inr () \<and> r' = Inr ()
               \<and> self1 = self\<lparr>callback := Some cb,
                    buffer := rev (takeWhile (\<lambda>b. b \<noteq> 0xC0) (rev (buffer self @ dados)))\<rparr>
               \<and> buffer self2 = buffer self1
               \<and> map fst chamadas1 = map fst chamadas2)"
    using args by (simp add: r1 r2 case_prod_beta)
  from a b show ?thesis
    by (intro conjI)
qed

theorem fault_isolation_witness:
  "([0x01] \<noteq> ([] :: bytes) \<and> [0x02] \<noteq> ([] :: bytes)
      \<and> fst (recusa_primeiro [0x01] 0) = Raised)
   \<and> Enlace_raw_recv (Enlace_registrar_recebedor (Enlace_init linha_nova) (Some recusa_primeiro))
        (quadro_enviado [0x01] @ quadro_enviado [0x02]) 0 =
      (Inr (), Enlace_registrar_recebedor (Enlace_init linha_nova) (Some recusa_primeiro),
       [([0x01], Raised), ([0x02], Returned)], 2)"
proof -
  have h: "[0x01] \<noteq> ([] :: bytes) \<and> [0x02] \<noteq> ([] :: bytes)
      \<and> fst (recusa_primeiro [0x01] 0) = Raised"
    by (simp add: recusa_primeiro_def)
  note f = fault_isolation [of "[0x01]" "[0x02]" recusa_primeiro 0 linha_nova]
  have c: "Enlace_raw_recv (Enlace_registrar_recebedor (Enlace_init linha_nova) (Some recusa_primeiro))
        (quadro_enviado [0x01] @ quadro_enviado [0x02]) 0 =
      (Inr (), Enlace_registrar_recebedor (Enlace_init linha_nova) (Some recusa_primeiro),
       [([0x01], Raised), ([0x02], Returned)], 2)"
    using f [THEN conjunct1, THEN mp, OF h] by (simp add: recusa_primeiro_def)
  from h c show ?thesis
    by (intro conjI) (elim conjE, assumption)+
qed

end
